theory Spec2Isabelle
  imports Complex_Main "HOL-Library.AList" "HOL-Library.Sublist"
begin

section \<open>Values\<close>

text \<open>
  A Python \<^verbatim>\<open>str\<close> is a list of Unicode code points. ASCII literals are written with
  \<open>ascii\<close>; the rupee sign is the code point 8377 (U+20B9).
\<close>

type_synonym ustr = "nat list"

definition ascii :: "string \<Rightarrow> ustr" where
  "ascii s = map of_char s"

text \<open>
  A Python \<^verbatim>\<open>float\<close> is modelled by the number it denotes: a rational, or
  \<^verbatim>\<open>float('inf')\<close>. Rounding to 53 bits, negative infinity and NaN are outside the model:
  \<^verbatim>\<open>float(tok)\<close> of a decimal token is its exact value and \<^verbatim>\<open>x * 0.9\<close> is exact.
\<close>

datatype pyfloat = Fin rat | PInf

instantiation pyfloat :: linorder
begin

fun less_eq_pyfloat :: "pyfloat \<Rightarrow> pyfloat \<Rightarrow> bool" where
  "less_eq_pyfloat (Fin x) (Fin y) = (x \<le> y)"
| "less_eq_pyfloat (Fin x) PInf = True"
| "less_eq_pyfloat PInf (Fin y) = False"
| "less_eq_pyfloat PInf PInf = True"

fun less_pyfloat :: "pyfloat \<Rightarrow> pyfloat \<Rightarrow> bool" where
  "less_pyfloat (Fin x) (Fin y) = (x < y)"
| "less_pyfloat (Fin x) PInf = True"
| "less_pyfloat PInf (Fin y) = False"
| "less_pyfloat PInf PInf = False"

instance
proof
  fix x y z :: pyfloat
  show "(x < y) = (x \<le> y \<and> \<not> y \<le> x)"
    by (cases x; cases y) auto
  show "x \<le> x"
    by (cases x) auto
  show "x \<le> y \<Longrightarrow> y \<le> z \<Longrightarrow> x \<le> z"
    by (cases x; cases y; cases z) auto
  show "x \<le> y \<Longrightarrow> y \<le> x \<Longrightarrow> x = y"
    by (cases x; cases y) auto
  show "x \<le> y \<or> y \<le> x"
    by (cases x; cases y) auto
qed

end

text \<open>\<^verbatim>\<open>x * 0.9\<close>: infinity stays infinite.\<close>

fun times_0_9 :: "pyfloat \<Rightarrow> pyfloat" where
  "times_0_9 (Fin x) = Fin (x * (9 / 10))"
| "times_0_9 PInf = PInf"

section \<open>Price text normalisation (\<^verbatim>\<open>PriceTracker.extract_price_from_text\<close>)\<close>

text \<open>
  \<^verbatim>\<open>s.replace(old, '')\<close> for a non-empty \<open>old\<close>: every occurrence found by a left-to-right
  scan is removed, the scan resuming after the removed occurrence.
\<close>

function str_remove :: "ustr \<Rightarrow> ustr \<Rightarrow> ustr" where
  "str_remove old [] = []"
| "str_remove old (c # cs) =
     (if old \<noteq> [] \<and> prefix old (c # cs)
      then str_remove old (drop (length old) (c # cs))
      else c # str_remove old cs)"
  by pat_completeness auto
termination
  by (relation "measure (\<lambda>(old, s). length s)") (auto simp: neq_Nil_conv)

text \<open>
  The regular expression class \<^verbatim>\<open>\d\<close> and \<^verbatim>\<open>float()\<close> both read decimal digits from the
  Unicode database of the Python runtime, which is not part of the repository: the table
  (code point to digit value) is a parameter. \<open>ascii_decimal\<close> is its ASCII part.
\<close>

type_synonym digit_table = "nat \<Rightarrow> nat option"

definition ascii_decimal :: digit_table where
  "ascii_decimal c = (if 48 \<le> c \<and> c \<le> 57 then Some (c - 48) else None)"

definition is_digit :: "digit_table \<Rightarrow> nat \<Rightarrow> bool" where
  "is_digit dv c = (dv c \<noteq> None)"

text \<open>
  The match of \<^verbatim>\<open>\d+\.?\d*\<close> at the start of a text that begins with a digit: all the
  digits, then a full stop (code point 46) if one follows, then all the digits after it.
\<close>

definition match_number :: "digit_table \<Rightarrow> ustr \<Rightarrow> ustr" where
  "match_number dv s =
     (let ds = takeWhile (is_digit dv) s; r = dropWhile (is_digit dv) s
      in case r of
           [] \<Rightarrow> ds
         | d # r' \<Rightarrow> if d = 46 then ds @ [46] @ takeWhile (is_digit dv) r' else ds)"

text \<open>
  \<^verbatim>\<open>re.findall(r'\d+\.?\d*', s)\<close>: the non-overlapping matches, scanning from the left.
\<close>

function findall_numbers :: "digit_table \<Rightarrow> ustr \<Rightarrow> ustr list" where
  "findall_numbers dv [] = []"
| "findall_numbers dv (c # cs) =
     (if is_digit dv c
      then match_number dv (c # cs)
             # findall_numbers dv (drop (length (match_number dv (c # cs))) (c # cs))
      else findall_numbers dv cs)"
  by pat_completeness auto
termination
proof (relation "measure (\<lambda>(dv, s). length s)")
  fix dv :: digit_table and c :: nat and cs :: ustr
  assume "is_digit dv c"
  then have "0 < length (match_number dv (c # cs))"
    by (simp add: match_number_def Let_def split: list.splits)
  then show "((dv, drop (length (match_number dv (c # cs))) (c # cs)), (dv, c # cs))
               \<in> measure (\<lambda>(dv, s). length s)"
    by simp
qed simp_all

definition digits_value :: "digit_table \<Rightarrow> ustr \<Rightarrow> nat" where
  "digits_value dv ds = fold (\<lambda>c n. 10 * n + the (dv c)) ds 0"

text \<open>
  \<^verbatim>\<open>float(s)\<close> on the texts the program applies it to: digits, optionally followed by a
  full stop and digits. \<open>None\<close> is \<^verbatim>\<open>ValueError\<close>. (Python's \<^verbatim>\<open>float\<close> also reads signs,
  exponents, blanks, \<^verbatim>\<open>inf\<close> and \<^verbatim>\<open>nan\<close>; no token of \<open>findall_numbers\<close> has them.)
\<close>

definition py_float :: "digit_table \<Rightarrow> ustr \<Rightarrow> pyfloat option" where
  "py_float dv s =
     (let ip = takeWhile (is_digit dv) s; r = dropWhile (is_digit dv) s
      in if ip = [] then None
         else case r of
                [] \<Rightarrow> Some (Fin (of_nat (digits_value dv ip)))
              | d # fp \<Rightarrow>
                  if d = 46 \<and> list_all (is_digit dv) fp
                  then Some (Fin (of_nat (digits_value dv ip)
                                  + of_nat (digits_value dv fp) / 10 ^ length fp))
                  else None)"

text \<open>What the function logs (the message texts carry the values shown).\<close>

datatype log_event =
    PriceOutsideRange pyfloat
  | CouldNotConvert ustr
  | NoValidPrice ustr

text \<open>Line 77: the currency markers and the thousands separator are removed.\<close>

definition clean_text :: "ustr \<Rightarrow> ustr" where
  "clean_text price_text =
     str_remove (ascii ''INR'')
       (str_remove (ascii ''Rs'') (str_remove (ascii '','') (str_remove [8377] price_text)))"

text \<open>
  The result is the pair of what is logged and what is returned; \<open>None\<close> as argument is
  Python's \<^verbatim>\<open>None\<close>, as result it is the returned \<^verbatim>\<open>None\<close>.
\<close>

definition extract_price_from_text ::
  "digit_table \<Rightarrow> ustr option \<Rightarrow> log_event list \<times> pyfloat option" where
  "extract_price_from_text dv price_text =
     (case price_text of
        None \<Rightarrow> ([], None)
      | Some t \<Rightarrow>
          if t = [] then ([], None)
          else (case findall_numbers dv (clean_text t) of
                  [] \<Rightarrow> ([NoValidPrice t], None)
                | tok # _ \<Rightarrow>
                    (case py_float dv tok of
                       None \<Rightarrow> ([CouldNotConvert tok], None)
                     | Some price \<Rightarrow>
                         if Fin 5000 \<le> price \<and> price \<le> Fin 15000 then ([], Some price)
                         else ([PriceOutsideRange price], Some price))))"

text \<open>
  Following the specification's words: a decimal-or-integer numeric token is a non-empty run
  of digits, optionally followed by a full stop and a (possibly empty) run of digits.
\<close>

definition is_number_token :: "digit_table \<Rightarrow> ustr \<Rightarrow> bool" where
  "is_number_token dv tok =
     (let ip = takeWhile (is_digit dv) tok; r = dropWhile (is_digit dv) tok
      in ip \<noteq> [] \<and> (r = [] \<or> (hd r = 46 \<and> list_all (is_digit dv) (tl r))))"

section \<open>Deal evaluation (\<^verbatim>\<open>PriceTracker.check_for_deals\<close>)\<close>

text \<open>
  The three alert reasons, standing for the texts
  \<^verbatim>\<open>At/below your target of ...\<close>, \<^verbatim>\<open>New historical low!\<close> and
  \<^verbatim>\<open>Significant price drop detected\<close>.
\<close>

datatype reason = AtBelowTarget | NewHistoricalLow | SignificantDrop

text \<open>
  The body of the loop of \<^verbatim>\<open>check_for_deals\<close> up to the test of \<^verbatim>\<open>alert_reasons\<close>:
  three independent \<^verbatim>\<open>if\<close>s, each appending to the list. \<open>threshold\<close> is
  \<^verbatim>\<open>PRICE_THRESHOLD\<close>, \<open>lowest_ever\<close> is \<^verbatim>\<open>historical_data['lowest_ever']\<close>.
\<close>

definition alert_reasons :: "rat \<Rightarrow> pyfloat \<Rightarrow> pyfloat \<Rightarrow> reason list" where
  "alert_reasons threshold lowest_ever price =
     (let r1 = (if price \<le> Fin threshold then [AtBelowTarget] else []);
          r2 = (if price < lowest_ever then r1 @ [NewHistoricalLow] else r1);
          r3 = (if lowest_ever \<noteq> PInf
                then (if price < times_0_9 lowest_ever then r2 @ [SignificantDrop] else r2)
                else r2)
      in r3)"

section \<open>Properties of the deal evaluator\<close>

text \<open>
  C2 as stated: with threshold 7500, historical lowest 8000 and price 7000 the reason list
  would be exactly at/below target followed by new historical low. The evaluator does not
  return that list.
\<close>

theorem C2_reasons_counterexample:
  "alert_reasons 7500 (Fin 8000) (Fin 7000) \<noteq> [AtBelowTarget, NewHistoricalLow]"
  by (simp add: alert_reasons_def)

text \<open>
  C2, amended: with threshold 7500, historical lowest 8000 and price 7000 the reason list is
  at/below target, new historical low, significant drop, in that order (7000 is below
  0.9 * 8000 = 7200).
\<close>

theorem C2_reasons_amended:
  "alert_reasons 7500 (Fin 8000) (Fin 7000)
     = [AtBelowTarget, NewHistoricalLow, SignificantDrop]"
  by (simp add: alert_reasons_def)

text \<open>
  C9 as stated: with the no-data sentinel as historical lowest, the reason new historical
  low would fire for no price. It fires for the price 8000.
\<close>

theorem C9_sentinel_counterexample:
  "NewHistoricalLow \<in> set (alert_reasons 7500 PInf (Fin 8000))"
  by (simp add: alert_reasons_def)

text \<open>
  C9, amended: the reason new historical low is produced exactly when the price is strictly
  below the historical lowest, the no-data sentinel counting as infinity; so with an empty
  history it is produced for every finite price.
\<close>

theorem C9_new_low_amended:
  "((NewHistoricalLow \<in> set (alert_reasons threshold lowest_ever price)) = (price < lowest_ever))
   \<and> NewHistoricalLow \<in> set (alert_reasons threshold PInf (Fin p))"
  by (auto simp: alert_reasons_def Let_def)

section \<open>Properties of the normaliser\<close>

lemma findall_skip:
  "\<not> list_ex (is_digit dv) pre \<Longrightarrow> findall_numbers dv (pre @ s) = findall_numbers dv s"
  by (induction pre) auto

lemma findall_Nil_iff:
  "(findall_numbers dv s = []) = (\<not> list_ex (is_digit dv) s)"
  by (induction s) auto

lemma split_digits:
  "\<exists>ds r. s = ds @ r \<and> takeWhile P s = ds \<and> dropWhile P s = r
          \<and> (\<forall>x\<in>set ds. P x) \<and> (r = [] \<or> \<not> P (hd r))"
  using hd_dropWhile[of P s] by (auto dest: set_takeWhileD)

lemma takeWhile_digits: "\<forall>x\<in>set ds. P x \<Longrightarrow> r = [] \<or> \<not> P (hd r) \<Longrightarrow> takeWhile P (ds @ r) = ds"
  by (cases r) (simp_all add: takeWhile_append2)

lemma dropWhile_digits: "\<forall>x\<in>set ds. P x \<Longrightarrow> r = [] \<or> \<not> P (hd r) \<Longrightarrow> dropWhile P (ds @ r) = r"
  by (cases r) (simp_all add: dropWhile_append2)

lemma match_number_shape:
  assumes "\<forall>x\<in>set ds. is_digit dv x" and "r = [] \<or> \<not> is_digit dv (hd r)"
  shows "match_number dv (ds @ r) =
           (case r of [] \<Rightarrow> ds
            | d # r' \<Rightarrow> if d = 46 then ds @ 46 # takeWhile (is_digit dv) r' else ds)"
  unfolding match_number_def Let_def
  by (simp only: takeWhile_digits[OF assms] dropWhile_digits[OF assms]) (simp split: list.splits)

lemma py_float_shape:
  assumes "\<forall>x\<in>set ds. is_digit dv x" and "r = [] \<or> \<not> is_digit dv (hd r)"
  shows "py_float dv (ds @ r) =
           (if ds = [] then None
            else case r of
                   [] \<Rightarrow> Some (Fin (of_nat (digits_value dv ds)))
                 | d # fp \<Rightarrow>
                     if d = 46 \<and> list_all (is_digit dv) fp
                     then Some (Fin (of_nat (digits_value dv ds)
                                   + of_nat (digits_value dv fp) / 10 ^ length fp))
                     else None)"
  unfolding py_float_def Let_def
  by (simp only: takeWhile_digits[OF assms] dropWhile_digits[OF assms])

lemma is_number_token_shape:
  assumes "\<forall>x\<in>set ds. is_digit dv x" and "r = [] \<or> \<not> is_digit dv (hd r)"
  shows "is_number_token dv (ds @ r) =
           (ds \<noteq> [] \<and> (r = [] \<or> (hd r = 46 \<and> list_all (is_digit dv) (tl r))))"
  unfolding is_number_token_def Let_def
  by (simp only: takeWhile_digits[OF assms] dropWhile_digits[OF assms])

lemma py_float_match:
  assumes "is_digit dv c"
  shows "py_float dv (match_number dv (c # cs)) \<noteq> None"
proof -
  let ?P = "is_digit dv"
  obtain ds r where s: "c # cs = ds @ r" and ds: "\<forall>x\<in>set ds. ?P x"
    and r: "r = [] \<or> \<not> ?P (hd r)"
    using split_digits[of "c # cs" ?P] by blast
  have ne: "ds \<noteq> []" using s r assms by (cases ds) auto
  show ?thesis
  proof (cases r)
    case Nil
    then have "match_number dv (c # cs) = ds @ []"
      using match_number_shape[OF ds r] s by simp
    then show ?thesis using py_float_shape[of ds dv "[]"] ds ne by simp
  next
    case (Cons d r')
    show ?thesis
    proof (cases "d = 46")
      case False
      then have "match_number dv (c # cs) = ds @ []"
        using match_number_shape[OF ds r] s Cons by simp
      then show ?thesis using py_float_shape[of ds dv "[]"] ds ne by simp
    next
      case True
      then have m: "match_number dv (c # cs) = ds @ (46 # takeWhile ?P r')"
        using match_number_shape[OF ds r] s Cons by simp
      have nd: "\<not> ?P 46" using r Cons True by simp
      have la: "list_all ?P (takeWhile ?P r')"
        by (auto simp: list_all_iff dest: set_takeWhileD)
      show ?thesis
        using py_float_shape[of ds dv "46 # takeWhile ?P r'"] ds ne nd la m by simp
    qed
  qed
qed

lemma match_number_token:
  assumes tok: "is_number_token dv tok"
    and mx: "rest = [] \<or> \<not> is_number_token dv (tok @ [hd rest])"
  shows "match_number dv (tok @ rest) = tok"
proof -
  let ?P = "is_digit dv"
  obtain ds r where s: "tok = ds @ r" and ds: "\<forall>x\<in>set ds. ?P x"
    and r: "r = [] \<or> \<not> ?P (hd r)"
    using split_digits[of tok ?P] by blast
  have t: "ds \<noteq> []" "r = [] \<or> (hd r = 46 \<and> list_all ?P (tl r))"
    using tok is_number_token_shape[OF ds r] s by simp_all
  show ?thesis
  proof (cases r)
    case Nil
    show ?thesis
    proof (cases rest)
      case Nil
      then show ?thesis using match_number_shape[OF ds r] s \<open>r = []\<close> by simp
    next
      case (Cons c rest')
      have nt: "\<not> is_number_token dv (ds @ [c])" using mx Cons s \<open>r = []\<close> by simp
      have nd: "\<not> ?P c"
      proof
        assume "?P c"
        then have "\<forall>x\<in>set (ds @ [c]). ?P x" using ds by simp
        from is_number_token_shape[OF this, of "[]"] nt t show False by simp
      qed
      have n46: "c \<noteq> 46"
        using is_number_token_shape[OF ds, of "[c]"] nd nt t by auto
      have "match_number dv (ds @ rest) = ds"
        using match_number_shape[OF ds, of rest] nd n46 Cons by simp
      then show ?thesis using s \<open>r = []\<close> by simp
    qed
  next
    case (Cons d fs)
    then have d46: "d = 46" and fsd: "list_all ?P fs" and nd: "\<not> ?P 46"
      using t r by auto
    have fsall: "\<forall>x\<in>set fs. ?P x" using fsd by (simp add: list_all_iff)
    have rest_nd: "rest = [] \<or> \<not> ?P (hd rest)"
    proof (cases rest)
      case Nil
      then show ?thesis by simp
    next
      case (Cons c rest')
      have "\<not> ?P c"
      proof
        assume pc: "?P c"
        have "is_number_token dv (ds @ (46 # fs @ [c]))"
          using is_number_token_shape[OF ds, of "46 # fs @ [c]"] nd t fsd pc by simp
        moreover have "tok @ [hd rest] = ds @ (46 # fs @ [c])"
          using s \<open>r = d # fs\<close> d46 Cons by simp
        ultimately show False using mx Cons by simp
      qed
      then show ?thesis using Cons by simp
    qed
    have "takeWhile ?P (fs @ rest) = fs"
      using takeWhile_digits[OF fsall rest_nd] .
    then have "match_number dv (ds @ (46 # fs @ rest)) = ds @ 46 # fs"
      using match_number_shape[OF ds, of "46 # fs @ rest"] nd by simp
    moreover have "tok @ rest = ds @ (46 # fs @ rest)" "tok = ds @ 46 # fs"
      using s Cons d46 by simp_all
    ultimately show ?thesis by simp
  qed
qed

lemma number_token_hd: "is_number_token dv tok \<Longrightarrow> \<exists>c cs. tok = c # cs \<and> is_digit dv c"
  by (cases tok) (auto simp: is_number_token_def Let_def split: if_splits)

lemma number_token_float: "is_number_token dv tok \<Longrightarrow> py_float dv tok \<noteq> None"
proof -
  assume tok: "is_number_token dv tok"
  obtain ds r where s: "tok = ds @ r" and ds: "\<forall>x\<in>set ds. is_digit dv x"
    and r: "r = [] \<or> \<not> is_digit dv (hd r)"
    using split_digits[of tok "is_digit dv"] by blast
  show ?thesis
    using tok is_number_token_shape[OF ds r] py_float_shape[OF ds r] s
    by (cases r) auto
qed

lemma findall_first_token:
  assumes "\<not> list_ex (is_digit dv) pre" "is_number_token dv tok"
    "rest = [] \<or> \<not> is_number_token dv (tok @ [hd rest])"
  shows "\<exists>toks. findall_numbers dv (pre @ tok @ rest) = tok # toks"
proof -
  obtain c cs where tk: "tok = c # cs" "is_digit dv c"
    using number_token_hd[OF assms(2)] by blast
  have "findall_numbers dv (pre @ tok @ rest) = findall_numbers dv (tok @ rest)"
    using findall_skip[OF assms(1)] .
  also have "\<dots> = findall_numbers dv (c # (cs @ rest))" using tk by simp
  also have "\<dots> = match_number dv (c # (cs @ rest))
       # findall_numbers dv (drop (length (match_number dv (c # (cs @ rest)))) (c # (cs @ rest)))"
    using tk(2) by simp
  finally show ?thesis using match_number_token[OF assms(2,3)] tk by auto
qed

lemma findall_tokens_float:
  "findall_numbers dv s = tok # toks \<Longrightarrow> py_float dv tok \<noteq> None"
proof (induction s)
  case Nil
  then show ?case by simp
next
  case (Cons c cs)
  then show ?case using py_float_match[of dv c cs] by (auto split: if_splits)
qed

lemma extract_cases:
  "extract_price_from_text dv x = ([], None)
   \<or> (\<exists>t. x = Some t \<and> t \<noteq> [] \<and> findall_numbers dv (clean_text t) = []
          \<and> extract_price_from_text dv x = ([NoValidPrice t], None))
   \<or> (\<exists>t tok toks price. x = Some t \<and> t \<noteq> [] \<and> findall_numbers dv (clean_text t) = tok # toks
          \<and> py_float dv tok = Some price
          \<and> extract_price_from_text dv x
              = (if Fin 5000 \<le> price \<and> price \<le> Fin 15000 then [] else [PriceOutsideRange price],
                 Some price))"
proof (cases x)
  case None
  then show ?thesis by (simp add: extract_price_from_text_def)
next
  case (Some t)
  show ?thesis
  proof (cases "t = []")
    case True
    then show ?thesis using Some by (simp add: extract_price_from_text_def)
  next
    case False
    show ?thesis
    proof (cases "findall_numbers dv (clean_text t)")
      case Nil
      then show ?thesis using Some False by (simp add: extract_price_from_text_def)
    next
      case (Cons tok toks)
      then obtain price where "py_float dv tok = Some price"
        using findall_tokens_float[OF Cons] by auto
      then show ?thesis using Some False Cons by (simp add: extract_price_from_text_def)
    qed
  qed
qed

lemma set_str_remove: "set (str_remove old s) \<subseteq> set s"
proof (induction old s rule: str_remove.induct)
  case (1 old)
  then show ?case by simp
next
  case (2 old c cs)
  show ?case
  proof (cases "old \<noteq> [] \<and> prefix old (c # cs)")
    case True
    then have "set (str_remove old (drop (length old) (c # cs))) \<subseteq> set (drop (length old) (c # cs))"
      using 2 by blast
    moreover have "set (drop (length old) (c # cs)) \<subseteq> set (c # cs)"
      by (rule set_drop_subset)
    ultimately show ?thesis using True by (simp del: drop.simps)
  next
    case False
    then have "set (str_remove old cs) \<subseteq> set cs" using 2 by blast
    then show ?thesis using False by auto
  qed
qed

lemma str_remove_single: "str_remove [c] s = filter (\<lambda>x. x \<noteq> c) s"
  by (induction s) auto

lemma clean_text_markers: "8377 \<notin> set (clean_text t) \<and> 44 \<notin> set (clean_text t)"
proof -
  let ?a = "str_remove [8377] t"
  let ?b = "str_remove (ascii '','') ?a"
  have a: "8377 \<notin> set ?a" by (simp add: str_remove_single)
  have b: "set ?b \<subseteq> set ?a" by (rule set_str_remove)
  have b44: "44 \<notin> set ?b" by (simp add: str_remove_single ascii_def)
  have "set (clean_text t) \<subseteq> set ?b"
    unfolding clean_text_def using set_str_remove by (meson order_trans)
  then show ?thesis using a b b44 by blast
qed

lemma extract_example_8999:
  "extract_price_from_text ascii_decimal (Some (8377 # ascii ''8,999.00'')) = ([], Some (Fin 8999))"
  by (simp add: extract_price_from_text_def clean_text_def ascii_def match_number_def py_float_def
        digits_value_def is_digit_def ascii_decimal_def is_number_token_def Let_def)

lemma extract_example_499:
  "extract_price_from_text ascii_decimal (Some (8377 # ascii ''499''))
     = ([PriceOutsideRange (Fin 499)], Some (Fin 499))"
  by (simp add: extract_price_from_text_def clean_text_def ascii_def match_number_def py_float_def
        digits_value_def is_digit_def ascii_decimal_def is_number_token_def Let_def)

text \<open>
  C5: for a non-empty text whose cleaned form holds a numeric token, the cleaned form has no
  rupee sign and no comma left, and the function returns the value of the first numeric
  token (the longest one starting at the first digit), inside the range 5000..15000 or not;
  outside the range the value is returned all the same and only a warning is logged. With
  the ASCII digits, the text of rupee sign and 8,999.00 gives 8999.0 and that of rupee sign
  and 499 gives 499.0 with the warning.
\<close>

theorem C5_first_token_returned:
  assumes "t \<noteq> []"
    and "clean_text t = pre @ tok @ rest"
    and "\<not> list_ex (is_digit dv) pre"
    and "is_number_token dv tok"
    and "rest = [] \<or> \<not> is_number_token dv (tok @ [hd rest])"
  shows "8377 \<notin> set (clean_text t) \<and> 44 \<notin> set (clean_text t)
         \<and> (\<exists>price. py_float dv tok = Some price
               \<and> extract_price_from_text dv (Some t)
                   = (if Fin 5000 \<le> price \<and> price \<le> Fin 15000 then []
                      else [PriceOutsideRange price], Some price))
         \<and> extract_price_from_text ascii_decimal (Some (8377 # ascii ''8,999.00''))
             = ([], Some (Fin 8999))
         \<and> extract_price_from_text ascii_decimal (Some (8377 # ascii ''499''))
             = ([PriceOutsideRange (Fin 499)], Some (Fin 499))"
proof -
  obtain toks where f: "findall_numbers dv (clean_text t) = tok # toks"
    using findall_first_token[OF assms(3,4,5)] assms(2) by auto
  obtain price where p: "py_float dv tok = Some price"
    using number_token_float[OF assms(4)] by auto
  have "extract_price_from_text dv (Some t)
          = (if Fin 5000 \<le> price \<and> price \<le> Fin 15000 then []
             else [PriceOutsideRange price], Some price)"
    using f p assms(1) by (simp add: extract_price_from_text_def)
  then show ?thesis
    using p clean_text_markers[of t] extract_example_8999 extract_example_499 by blast
qed

theorem C5_first_token_witness:
  "\<exists>price. py_float ascii_decimal (ascii ''8999.00'') = Some price
     \<and> extract_price_from_text ascii_decimal (Some (8377 # ascii ''8,999.00''))
         = (if Fin 5000 \<le> price \<and> price \<le> Fin 15000 then []
            else [PriceOutsideRange price], Some price)"
proof -
  let ?t = "8377 # ascii ''8,999.00''"
  have 1: "?t \<noteq> []" by simp
  have 2: "clean_text ?t = [] @ ascii ''8999.00'' @ []"
    by (simp add: clean_text_def ascii_def)
  have 3: "\<not> list_ex (is_digit ascii_decimal) []" by simp
  have 4: "is_number_token ascii_decimal (ascii ''8999.00'')"
    by (simp add: is_number_token_def ascii_def is_digit_def ascii_decimal_def)
  have 5: "[] = [] \<or> \<not> is_number_token ascii_decimal (ascii ''8999.00'' @ [hd []])" by simp
  show ?thesis
    using C5_first_token_returned[OF 1 2 3 4 5] by blast
qed

text \<open>
  C6 as stated: the empty input and an input without numeric token would fail with two
  distinguishable results, and a blank input would fail as the empty one does. Both return
  the same value \<open>None\<close>, and a text of two blanks takes the no-token path.
\<close>

theorem C6_failure_kinds_counterexample:
  "snd (extract_price_from_text ascii_decimal (Some []))
     = snd (extract_price_from_text ascii_decimal (Some (ascii ''Free shipping'')))
   \<and> extract_price_from_text ascii_decimal (Some (ascii ''  ''))
       = ([NoValidPrice (ascii ''  '')], None)"
  by (simp add: extract_price_from_text_def clean_text_def ascii_def match_number_def py_float_def
        digits_value_def is_digit_def ascii_decimal_def is_number_token_def Let_def)

text \<open>
  C6, amended: the function has one failure value, \<open>None\<close>. It returns it without logging
  exactly when the input is \<open>None\<close> or the empty string, and with the no-valid-price warning
  exactly when a non-empty input (blank ones included) has no digit left after cleaning;
  these are its only failures, so the two kinds differ in the log only.
\<close>

theorem C6_failure_kinds_amended:
  "((extract_price_from_text dv x = ([], None)) = (x = None \<or> x = Some []))
   \<and> ((extract_price_from_text dv (Some t) = ([NoValidPrice t], None))
        = (t \<noteq> [] \<and> \<not> list_ex (is_digit dv) (clean_text t)))
   \<and> ((snd (extract_price_from_text dv x) = None)
        = (extract_price_from_text dv x = ([], None)
           \<or> (\<exists>t. x = Some t \<and> extract_price_from_text dv x = ([NoValidPrice t], None))))"
proof (intro conjI)
  show "(extract_price_from_text dv x = ([], None)) = (x = None \<or> x = Some [])"
    by (auto simp: extract_price_from_text_def split: option.splits list.splits)
  show "(extract_price_from_text dv (Some t) = ([NoValidPrice t], None))
        = (t \<noteq> [] \<and> \<not> list_ex (is_digit dv) (clean_text t))"
    using findall_Nil_iff[of dv "clean_text t"]
    by (auto simp: extract_price_from_text_def split: option.splits list.splits)
  show "(snd (extract_price_from_text dv x) = None)
        = (extract_price_from_text dv x = ([], None)
           \<or> (\<exists>t. x = Some t \<and> extract_price_from_text dv x = ([NoValidPrice t], None)))"
    using extract_cases[of dv x] by (auto split: if_splits)
qed

theorem C6_failure_kinds_witness:
  "extract_price_from_text ascii_decimal (Some (ascii ''Free shipping''))
     = ([NoValidPrice (ascii ''Free shipping'')], None)"
proof -
  have "ascii ''Free shipping'' \<noteq> []
        \<and> \<not> list_ex (is_digit ascii_decimal) (clean_text (ascii ''Free shipping''))"
    by (simp add: clean_text_def ascii_def is_digit_def ascii_decimal_def)
  then show ?thesis
    using C6_failure_kinds_amended[of ascii_decimal "Some (ascii ''Free shipping'')"
            "ascii ''Free shipping''"] by blast
qed

end
